theory Spec2Isabelle
  imports Complex_Main "HOL-Library.Multiset"
begin

section \<open>Conventions of the embedding\<close>

text \<open>
  The development embeds two source files of the CAL engine:
  \<^item> \<^verbatim>\<open>bmi_para_scal.cc\<close>: the scalability controller (constructor and
    \<^verbatim>\<open>record_judgment_batch\<close>);
  \<^item> \<^verbatim>\<open>sofiaml/sofia-ml-methods.cc\<close>: the stochastic learner (step functions,
    regularisation, projection, learning rates and the outer loops).

  Numbers. The C++ \<^verbatim>\<open>int\<close> counters are HOL integers and \<^verbatim>\<open>float\<close>/\<^verbatim>\<open>double\<close>
  values are HOL reals: arithmetic is exact, there is no overflow and no rounding.  Unit indices
  (\<^verbatim>\<open>size_t\<close> document indices, the \<^verbatim>\<open>int\<close> paragraph indices of the queue) are
  natural numbers.  Where the outcome of a test of the source depends on an IEEE infinity or
  NaN (the quotient of the refill, the quotients of the passive-aggressive steps and of the
  projection, the result of \<^verbatim>\<open>pow\<close>), the model writes that outcome out instead of using
  HOL's \<open>x / 0 = 0\<close>.  The learning rate of \<^verbatim>\<open>GetEta\<close> for \<open>lambda * i = 0\<close> or
  \<open>i = -10\<close> and the coefficients of the ROMMA step for a denominator 0 are infinite in the
  source; the model does not represent them and no statement below depends on them.

  Failure. A call of \<^verbatim>\<open>exit(0)\<close> is the value \<open>Inl (Exit 0)\<close>; an operation whose
  result C++ leaves undefined (converting a NaN to \<^verbatim>\<open>int\<close>, drawing from an empty
  range, reading past a vector) is \<open>Inl Undefined_Behaviour\<close>.

  Randomness. A generator is the sequence of its future raw draws, given as a list that
  continues with zeros.
\<close>

datatype error = Exit int | Undefined_Behaviour

type_synonym mt19937 = "nat list"

definition next_draw :: "mt19937 \<Rightarrow> nat \<times> mt19937" where
  "next_draw g = (case g of [] \<Rightarrow> (0, []) | r # g' \<Rightarrow> (r, g'))"

section \<open>The scalability controller (bmi\_para\_scal.cc)\<close>

text \<open>
  \<^verbatim>\<open>std::shuffle(first, last, g)\<close> permutes the range with draws of \<open>g\<close>; the
  standard fixes no algorithm.  The model draws the next element of the result among the
  remaining ones, once per position.
\<close>

primrec shuffle_n :: "nat \<Rightarrow> 'a list \<Rightarrow> mt19937 \<Rightarrow> 'a list \<times> mt19937" where
  "shuffle_n 0 xs g = ([], g)"
| "shuffle_n (Suc n) xs g =
     (let (r, g1) = next_draw g;
          j = r mod Suc n;
          (ys, g2) = shuffle_n n (take j xs @ drop (Suc j) xs) g1
      in (xs ! j # ys, g2))"

definition shuffle :: "'a list \<Rightarrow> mt19937 \<Rightarrow> 'a list \<times> mt19937" where
  "shuffle xs g = shuffle_n (length xs) xs g"

text \<open>
  The object.  \<open>documents_get_index\<close> and \<open>paragraphs_translate_index\<close> stand for
  \<^verbatim>\<open>documents->get_index\<close> and \<^verbatim>\<open>paragraphs->translate_index\<close>, whose classes are
  not among the sources: they are arbitrary functions.  \<open>judgments\<close> is the labeled cache.
\<close>

record BMI_para_scal =
  documents_get_index :: "string \<Rightarrow> nat"
  paragraphs_translate_index :: "nat \<Rightarrow> nat"
  rand_generator :: mt19937
  N :: int
  T :: int
  R :: int
  B :: int
  judgments_per_iteration :: int
  judgment_queue :: "nat list"
  judgments :: "nat \<rightharpoonup> int"

text \<open>
  Modelled from the spec: \<^verbatim>\<open>add_to_training_cache\<close> belongs to the base class, which is
  not among the sources.  The spec (4.4) says of this step: "resolve key to a unit id; insert
  into the labeled cache".
\<close>

definition add_to_training_cache :: "nat \<Rightarrow> int \<Rightarrow> BMI_para_scal \<Rightarrow> BMI_para_scal" where
  "add_to_training_cache doc label s = s\<lparr>judgments := (judgments s)(doc \<mapsto> label)\<rparr>"

text \<open>
  The inner loop of \<^verbatim>\<open>record_judgment_batch\<close> (lines 26-32):
  \<^verbatim>\<open>for(int i = (int)judgment_queue.size() - 1; i >= 0; i--)\<close>.
  \<open>find_from_tail tr doc q k\<close> runs it for \<open>i = k - 1\<close> down to \<open>0\<close> and returns the
  index at which the loop breaks, if it does.
\<close>

fun find_from_tail :: "(nat \<Rightarrow> nat) \<Rightarrow> nat \<Rightarrow> nat list \<Rightarrow> nat \<Rightarrow> nat option" where
  "find_from_tail tr doc q 0 = None"
| "find_from_tail tr doc q (Suc i) =
     (if tr (q ! i) = doc then Some i else find_from_tail tr doc q i)"

text \<open>The body of the loop over \<^verbatim>\<open>_judgments\<close> (lines 24-32), for one judgment.\<close>

definition fold_judgment :: "BMI_para_scal \<Rightarrow> string \<times> int \<Rightarrow> BMI_para_scal" where
  "fold_judgment s judgment =
     (let doc = documents_get_index s (fst judgment);
          s1 = add_to_training_cache doc (snd judgment) s;
          q = judgment_queue s1
      in case find_from_tail (paragraphs_translate_index s1) doc q (length q) of
           None \<Rightarrow> s1
         | Some i \<Rightarrow>
             s1\<lparr>judgment_queue := take i q @ drop (Suc i) q,
                R := (if snd judgment > 0 then R s1 + 1 else R s1)\<rparr>)"

text \<open>
  The loop of lines 52-55 over the shuffled batch and its selector:
  a selected candidate is pushed on the queue, any other is stored with label \<open>-2\<close>.
\<close>

fun enqueue_or_discard :: "int list \<Rightarrow> nat list \<Rightarrow> BMI_para_scal \<Rightarrow> BMI_para_scal" where
  "enqueue_or_discard (sel # selector) (p # batch) s =
     enqueue_or_discard selector batch
       (if sel \<noteq> 0 then s\<lparr>judgment_queue := judgment_queue s @ [p]\<rparr>
        else s\<lparr>judgments := (judgments s)(p \<mapsto> - 2)\<rparr>)"
| "enqueue_or_discard _ _ s = s"

text \<open>
  The refill (lines 36-56).  \<open>candidates\<close> is the vector that
  \<^verbatim>\<open>perform_training_iteration()\<close> returns; that function is not among the sources and
  its result is left arbitrary.  With \<open>T = 0\<close> the quotient \<^verbatim>\<open>B*N/(float)T\<close> is a NaN or
  an infinity and its conversion to \<^verbatim>\<open>int\<close> is undefined.
\<close>

definition refill :: "BMI_para_scal \<Rightarrow> nat list \<Rightarrow> error + BMI_para_scal" where
  "refill s candidates =
     (let s1 = (if R s \<ge> T s then s\<lparr>T := push_bit 1 (T s)\<rparr> else s);
          s2 = s1\<lparr>judgments_per_iteration := B s1\<rparr>
      in if T s2 = 0 then Inl Undefined_Behaviour
         else
           let n = \<lceil>real_of_int (B s2 * N s2) / real_of_int (T s2)\<rceil>;
               selector = map (\<lambda>i. if int i < n then 1 else 0) [0..<length candidates];
               (batch, g) = shuffle candidates (rand_generator s2);
               s3 = enqueue_or_discard selector batch (s2\<lparr>rand_generator := g\<rparr>)
           in Inr (s3\<lparr>B := B s3 + \<lceil>real_of_int (B s3) / 10\<rceil>\<rparr>))"

definition record_judgment_batch ::
  "BMI_para_scal \<Rightarrow> (string \<times> int) list \<Rightarrow> nat list \<Rightarrow> error + BMI_para_scal" where
  "record_judgment_batch s new_judgments candidates =
     (let s1 = foldl fold_judgment s new_judgments
      in if length (judgment_queue s1) = 0 then refill s1 candidates else Inr s1)"

text \<open>
  The constructor (lines 6-19).  \<open>base\<close> is the object as the base-class constructor
  leaves it (it holds the initial \<open>B\<close>, declared in a header that is not among the
  sources).
  Modelled from the spec: \<^verbatim>\<open>perform_iteration\<close> belongs to the base class, which is not
  among the sources.  The spec (4.4, 4.5) says that it queues the candidates of the iteration;
  \<open>candidates\<close> is that batch.
\<close>

definition new_BMI_para_scal :: "BMI_para_scal \<Rightarrow> int \<Rightarrow> nat list \<Rightarrow> BMI_para_scal" where
  "new_BMI_para_scal base N0 candidates =
     (let s = base\<lparr>N := N0, T := N0, R := 0, judgments_per_iteration := B base\<rparr>;
          s1 = s\<lparr>judgment_queue := judgment_queue s @ candidates\<rparr>
      in s1\<lparr>B := B s1 + \<lceil>real_of_int (B s1) / 10\<rceil>\<rparr>)"

text \<open>A session: the calls of \<^verbatim>\<open>record_judgment_batch\<close> in order, each with the
  judgments submitted and the candidates its training iteration would return.\<close>

fun run ::
  "BMI_para_scal \<Rightarrow> ((string \<times> int) list \<times> nat list) list \<Rightarrow> error + BMI_para_scal" where
  "run s [] = Inr s"
| "run s (call # calls) =
     (case record_judgment_batch s (fst call) (snd call) of
        Inl e \<Rightarrow> Inl e
      | Inr s' \<Rightarrow> run s' calls)"

text \<open>
  A small data set for concrete runs: paragraph 3 belongs to document 2 and every other
  paragraph to document 1; the key \<open>''D1''\<close> names document 1 and every other key
  document 2.  The base class leaves \<open>B = 2\<close>, an empty queue and an empty cache, and
  the generator only draws zeros.
\<close>

definition scenario_base :: BMI_para_scal where
  "scenario_base =
     \<lparr>documents_get_index = (\<lambda>key. if key = ''D1'' then 1 else 2),
      paragraphs_translate_index = (\<lambda>p. if p = 3 then 2 else 1),
      rand_generator = [], N = 0, T = 0, R = 0, B = 2, judgments_per_iteration = 0,
      judgment_queue = [], judgments = Map.empty\<rparr>"


text \<open>
  Counts used to state what \<open>R\<close> counts.  \<open>received_positive\<close> is the number of
  judgments with label \<open>+1\<close> submitted in a session.  \<open>counted_judgments\<close> is the number
  of submitted judgments that have a positive label and whose document has a queued paragraph
  at the moment the judgment is folded in; \<open>counted_session\<close> sums it over the calls.
\<close>

definition received_positive :: "((string \<times> int) list \<times> nat list) list \<Rightarrow> nat" where
  "received_positive calls = length (filter (\<lambda>j. snd j = 1) (concat (map fst calls)))"

fun counted_judgments :: "BMI_para_scal \<Rightarrow> (string \<times> int) list \<Rightarrow> nat" where
  "counted_judgments s [] = 0"
| "counted_judgments s (j # js) =
     (if snd j > 0 \<and> (\<exists>p \<in> set (judgment_queue s).
            paragraphs_translate_index s p = documents_get_index s (fst j))
      then 1 else 0) + counted_judgments (fold_judgment s j) js"

fun counted_session :: "BMI_para_scal \<Rightarrow> ((string \<times> int) list \<times> nat list) list \<Rightarrow> nat" where
  "counted_session s [] = 0"
| "counted_session s (call # calls) =
     counted_judgments s (fst call) +
     (case record_judgment_batch s (fst call) (snd call) of
        Inl e \<Rightarrow> 0
      | Inr s' \<Rightarrow> counted_session s' calls)"


section \<open>The stochastic learner (sofia-ml-methods.cc)\<close>

text \<open>
  Sequencing of fallible steps: the first failure ends the computation.
\<close>

definition and_then :: "error + 'a \<Rightarrow> ('a \<Rightarrow> error + 'b) \<Rightarrow> error + 'b" where
  "and_then r f = (case r of Inl e \<Rightarrow> Inl e | Inr v \<Rightarrow> f v)"

subsection \<open>Sparse vectors and the weight vector\<close>

text \<open>
  Modelled from the spec: the classes \<^verbatim>\<open>SfSparseVector\<close>, \<^verbatim>\<open>SfWeightVector\<close> and
  \<^verbatim>\<open>SfDataSet\<close> are not among the sources.  Spec 3 and 4.1: a sparse vector is a
  strictly ascending sequence of feature ids with their values, and a label \<open>y\<close>; its
  squared norm is the sum of the squared values.  A data set is the list of its vectors.
\<close>

record SfSparseVector =
  Features :: "(nat \<times> real) list"
  GetY :: real

definition GetSquaredNorm :: "SfSparseVector \<Rightarrow> real" where
  "GetSquaredNorm x = (\<Sum>(i, v) \<leftarrow> Features x. v * v)"

text \<open>
  Modelled from the spec (4.3): the constructor \<^verbatim>\<open>SfSparseVector(a, b, y)\<close> materialises
  the difference \<open>a - b\<close>, with label \<open>y\<close>.
\<close>

fun difference_features :: "(nat \<times> real) list \<Rightarrow> (nat \<times> real) list \<Rightarrow> (nat \<times> real) list" where
  "difference_features [] [] = []"
| "difference_features ((i, u) # as) [] = (i, u) # difference_features as []"
| "difference_features [] ((j, v) # bs) = (j, - v) # difference_features [] bs"
| "difference_features ((i, u) # as) ((j, v) # bs) =
     (if i < j then (i, u) # difference_features as ((j, v) # bs)
      else if j < i then (j, - v) # difference_features ((i, u) # as) bs
      else (i, u - v) # difference_features as bs)"

definition SfSparseVector_difference ::
  "SfSparseVector \<Rightarrow> SfSparseVector \<Rightarrow> real \<Rightarrow> SfSparseVector" where
  "SfSparseVector_difference a b y_diff =
     \<lparr>Features = difference_features (Features a) (Features b), GetY = y_diff\<rparr>"

definition MIN_SCALING_FACTOR :: real where
  "MIN_SCALING_FACTOR = 1 / 10000000"

text \<open>
  Modelled from the spec (3 and 4.2): the weight vector is a dense array \<open>raw\<close>, a lazy
  scale \<open>s\<close> and a cached squared norm; its logical value is \<open>w\<^sub>i = s * raw\<^sub>i\<close>.
  \<^item> \<open>inner_product(x) = s * \<Sum> raw\<^sub>i * x\<^sub>i\<close>;
  \<^item> \<open>scale_by(\<alpha>)\<close>: \<open>s \<leftarrow> \<alpha> * s\<close>, \<open>sqNorm \<leftarrow> \<alpha>\<^sup>2 * sqNorm\<close>, and when \<open>|s|\<close> drops below
    \<open>MIN_SCALING_FACTOR\<close> the scale is flushed into \<open>raw\<close> and reset to 1;
  \<^item> \<open>add_vector(x, c)\<close>: \<open>raw\<^sub>i \<leftarrow> raw\<^sub>i + (c / s) * x\<^sub>i\<close> for each feature of \<open>x\<close>, the
    squared norm following \<open>(s * raw\<^sub>i)\<^sup>2\<close>;
  \<^item> \<open>inner_product_on_difference(a, b) = w\<cdot>a - w\<cdot>b\<close>.
\<close>

record SfWeightVector =
  raw :: "nat \<Rightarrow> real"
  scale :: real
  squared_norm :: real

definition InnerProduct :: "SfWeightVector \<Rightarrow> SfSparseVector \<Rightarrow> real" where
  "InnerProduct w x = scale w * (\<Sum>(i, v) \<leftarrow> Features x. raw w i * v)"

definition InnerProductOnDifference ::
  "SfWeightVector \<Rightarrow> SfSparseVector \<Rightarrow> SfSparseVector \<Rightarrow> real" where
  "InnerProductOnDifference w a b = InnerProduct w a - InnerProduct w b"

definition ScaleBy :: "real \<Rightarrow> SfWeightVector \<Rightarrow> SfWeightVector" where
  "ScaleBy scaling_factor w =
     (let s = scaling_factor * scale w;
          w1 = w\<lparr>scale := s, squared_norm := scaling_factor * scaling_factor * squared_norm w\<rparr>
      in if \<bar>s\<bar> < MIN_SCALING_FACTOR
         then w1\<lparr>raw := (\<lambda>i. s * raw w i), scale := 1\<rparr>
         else w1)"

definition add_feature :: "real \<Rightarrow> SfWeightVector \<Rightarrow> nat \<times> real \<Rightarrow> SfWeightVector" where
  "add_feature x_scale w f =
     (let i = fst f;
          old = raw w i;
          new = old + (x_scale / scale w) * snd f
      in w\<lparr>raw := (raw w)(i := new),
           squared_norm := squared_norm w + (scale w * new) * (scale w * new)
                             - (scale w * old) * (scale w * old)\<rparr>)"

definition AddVector :: "SfSparseVector \<Rightarrow> real \<Rightarrow> SfWeightVector \<Rightarrow> SfWeightVector" where
  "AddVector x x_scale w = foldl (add_feature x_scale) w (Features x)"

definition GetSquaredNorm_w :: "SfWeightVector \<Rightarrow> real" where
  "GetSquaredNorm_w w = squared_norm w"

subsection \<open>Types of the learner\<close>

text \<open>
  Modelled from the spec: the enumerations \<^verbatim>\<open>LearnerType\<close> and \<^verbatim>\<open>EtaType\<close> are
  declared in a header that is not among the sources.  The enumerators are those of the
  \<^verbatim>\<open>switch\<close> statements, the eight families and three schedules of spec 4.3.  An object
  of an enumeration type can hold a value that is no enumerator (by a cast); the last
  constructor of each type stands for such a value.
\<close>

datatype LearnerType =
  PEGASOS | MARGIN_PERCEPTRON | PASSIVE_AGGRESSIVE | LOGREG_PEGASOS | LOGREG
  | LMS_REGRESSION | SGD_SVM | ROMMA | LearnerType_other int

datatype EtaType = BASIC_ETA | PEGASOS_ETA | CONSTANT | EtaType_other int

subsection \<open>Helper functions (lines 45-82)\<close>

definition RandInt :: "nat \<Rightarrow> mt19937 \<Rightarrow> error + (nat \<times> mt19937)" where
  \<comment> \<open>\<^verbatim>\<open>uniform_int_distribution<int>(0, num_vals-1)\<close> requires \<open>0 \<le> num_vals - 1\<close>\<close>
  "RandInt num_vals g =
     (if num_vals = 0 then Inl Undefined_Behaviour
      else Inr (fst (next_draw g) mod num_vals, snd (next_draw g)))"

definition RandFloat :: "mt19937 \<Rightarrow> real \<times> mt19937" where
  \<comment> \<open>a value of \<open>[0, 1)\<close> with the 24 bits of a \<^verbatim>\<open>float\<close>\<close>
  "RandFloat g = (real (fst (next_draw g) mod 2 ^ 24) / 2 ^ 24, snd (next_draw g))"

definition GetEta :: "EtaType \<Rightarrow> real \<Rightarrow> int \<Rightarrow> error + real" where
  "GetEta eta_type lambda i =
     (case eta_type of
        BASIC_ETA \<Rightarrow> Inr (10 / (real_of_int i + 10))
      | PEGASOS_ETA \<Rightarrow> Inr (1 / (lambda * real_of_int i))
      | CONSTANT \<Rightarrow> Inr (2 / 100)
      | EtaType_other v \<Rightarrow> Inl (Exit 0))"

subsection \<open>Regularisation and projection (lines 637-664)\<close>

definition L2Regularize :: "real \<Rightarrow> real \<Rightarrow> SfWeightVector \<Rightarrow> SfWeightVector" where
  "L2Regularize eta lambda w =
     (let scaling_factor = 1 - (eta * lambda)
      in if scaling_factor > MIN_SCALING_FACTOR
         then ScaleBy (1 - (eta * lambda)) w
         else ScaleBy MIN_SCALING_FACTOR w)"





text \<open>
  \<^verbatim>\<open>1 / sqrt(lambda * w->GetSquaredNorm())\<close> is \<open>+\<infinity>\<close> for a product 0 and a NaN for a
  negative one; neither is below 1.
\<close>

definition PegasosProjection :: "real \<Rightarrow> SfWeightVector \<Rightarrow> SfWeightVector" where
  "PegasosProjection lambda w =
     (let v = lambda * GetSquaredNorm_w w
      in if 0 < v \<and> 1 / sqrt v < 1 then ScaleBy (1 / sqrt v) w else w)"

subsection \<open>Single stochastic step functions (lines 319-604)\<close>

text \<open>
  Each function takes the weight vector and returns its \<^verbatim>\<open>bool\<close> result with the updated
  weight vector.
\<close>

definition rank_label :: "real \<Rightarrow> real \<Rightarrow> real" where
  \<comment> \<open>\<^verbatim>\<open>(y_a > y_b) ? 1.0 : (y_a < y_b) ? -1.0 : 0.0\<close>\<close>
  "rank_label y_a y_b = (if y_a > y_b then 1 else if y_a < y_b then - 1 else 0)"

definition SinglePegasosStep ::
  "SfSparseVector \<Rightarrow> real \<Rightarrow> real \<Rightarrow> SfWeightVector \<Rightarrow> bool \<times> SfWeightVector" where
  "SinglePegasosStep x eta lambda w =
     (let p = GetY x * InnerProduct w x;
          w1 = L2Regularize eta lambda w;
          w2 = (if p < 1 \<and> GetY x \<noteq> 0 then AddVector x (eta * GetY x) w1 else w1);
          w3 = PegasosProjection lambda w2
      in (p < 1 \<and> GetY x \<noteq> 0, w3))"

text \<open>The ROMMA step is meant for a denominator that is not zero.\<close>

definition SingleRommaStep :: "SfSparseVector \<Rightarrow> SfWeightVector \<Rightarrow> bool \<times> SfWeightVector" where
  "SingleRommaStep x w =
     (let wx = InnerProduct w x;
          p = GetY x * wx;
          kVerySmallNumber = 1 / 10000000000
      in if p < 1 \<and> GetY x \<noteq> 0
         then
           let xx = GetSquaredNorm x;
               ww = GetSquaredNorm_w w;
               c = ((xx * ww) - p + kVerySmallNumber) / ((xx * ww) - (wx * wx) + kVerySmallNumber);
               d = (ww * (GetY x - wx) + kVerySmallNumber) / ((xx * ww) - (wx * wx) + kVerySmallNumber)
           in (True, if c \<ge> 0 then AddVector x d (ScaleBy c w) else w)
         else (False, w))"

definition SingleSgdSvmStep ::
  "SfSparseVector \<Rightarrow> real \<Rightarrow> real \<Rightarrow> SfWeightVector \<Rightarrow> bool \<times> SfWeightVector" where
  "SingleSgdSvmStep x eta lambda w =
     (let p = GetY x * InnerProduct w x;
          w1 = L2Regularize eta lambda w;
          w2 = (if p < 1 \<and> GetY x \<noteq> 0 then AddVector x (eta * GetY x) w1 else w1)
      in (p < 1 \<and> GetY x \<noteq> 0, w2))"

definition SingleMarginPerceptronStep ::
  "SfSparseVector \<Rightarrow> real \<Rightarrow> real \<Rightarrow> SfWeightVector \<Rightarrow> bool \<times> SfWeightVector" where
  "SingleMarginPerceptronStep x eta c w =
     (if GetY x * InnerProduct w x \<le> c
      then (True, AddVector x (eta * GetY x) w)
      else (False, w))"

definition SinglePegasosLogRegStep ::
  "SfSparseVector \<Rightarrow> real \<Rightarrow> real \<Rightarrow> SfWeightVector \<Rightarrow> bool \<times> SfWeightVector" where
  "SinglePegasosLogRegStep x eta lambda w =
     (let loss = GetY x / (1 + exp (GetY x * InnerProduct w x));
          w1 = L2Regularize eta lambda w;
          w2 = AddVector x (eta * loss) w1;
          w3 = PegasosProjection lambda w2
      in (True, w3))"

definition SingleLogRegStep ::
  "SfSparseVector \<Rightarrow> real \<Rightarrow> real \<Rightarrow> SfWeightVector \<Rightarrow> bool \<times> SfWeightVector" where
  "SingleLogRegStep x eta lambda w =
     (let loss = GetY x / (1 + exp (GetY x * InnerProduct w x));
          w1 = L2Regularize eta lambda w;
          w2 = AddVector x (eta * loss) w1
      in (True, w2))"

definition SingleLeastMeanSquaresStep ::
  "SfSparseVector \<Rightarrow> real \<Rightarrow> real \<Rightarrow> SfWeightVector \<Rightarrow> bool \<times> SfWeightVector" where
  "SingleLeastMeanSquaresStep x eta lambda w =
     (let loss = GetY x - InnerProduct w x;
          w1 = L2Regularize eta lambda w;
          w2 = AddVector x (eta * loss) w1;
          w3 = PegasosProjection lambda w2
      in (True, w3))"

text \<open>
  \<^verbatim>\<open>p / x.GetSquaredNorm()\<close> with \<open>p > 0\<close> and a squared norm 0 is \<open>+\<infinity>\<close>, which
  exceeds \<^verbatim>\<open>max_step\<close>.
\<close>

definition SinglePassiveAggressiveStep ::
  "SfSparseVector \<Rightarrow> real \<Rightarrow> real \<Rightarrow> SfWeightVector \<Rightarrow> bool \<times> SfWeightVector" where
  "SinglePassiveAggressiveStep x lambda max_step w =
     (let p = 1 - (GetY x * InnerProduct w x);
          w1 = (if p > 0 \<and> GetY x \<noteq> 0
                then
                  let step = (if GetSquaredNorm x = 0 \<or> p / GetSquaredNorm x > max_step
                              then max_step else p / GetSquaredNorm x)
                  in AddVector x (step * GetY x) w
                else w);
          w2 = (if lambda > 0 then PegasosProjection lambda w1 else w1)
      in (p < 1 \<and> GetY x \<noteq> 0, w2))"

text \<open>The loop of lines 454-468: the squared norm of \<open>a - b\<close> by a merge of the two
  feature lists.\<close>

fun squared_norm_of_difference :: "(nat \<times> real) list \<Rightarrow> (nat \<times> real) list \<Rightarrow> real" where
  "squared_norm_of_difference [] [] = 0"
| "squared_norm_of_difference ((i, u) # as) [] = u * u + squared_norm_of_difference as []"
| "squared_norm_of_difference [] ((j, v) # bs) = v * v + squared_norm_of_difference [] bs"
| "squared_norm_of_difference ((i, u) # as) ((j, v) # bs) =
     (if i < j then u * u + squared_norm_of_difference as ((j, v) # bs)
      else if j < i then v * v + squared_norm_of_difference ((i, u) # as) bs
      else (u - v) * (u - v) + squared_norm_of_difference as bs)"

definition SinglePassiveAggressiveRankStep ::
  "SfSparseVector \<Rightarrow> SfSparseVector \<Rightarrow> real \<Rightarrow> real \<Rightarrow> SfWeightVector
     \<Rightarrow> bool \<times> SfWeightVector" where
  "SinglePassiveAggressiveRankStep a b lambda max_step w =
     (let y = rank_label (GetY a) (GetY b);
          p = 1 - (y * InnerProductOnDifference w a b);
          w1 = (if p > 0 \<and> y \<noteq> 0
                then
                  let sq = squared_norm_of_difference (Features a) (Features b);
                      step = (if sq = 0 \<or> p / sq > max_step then max_step else p / sq)
                  in AddVector b (step * y * - 1) (AddVector a (step * y) w)
                else w);
          w2 = (if lambda > 0 then PegasosProjection lambda w1 else w1)
      in (p > 0 \<and> y \<noteq> 0, w2))"

definition SinglePegasosRankStep ::
  "SfSparseVector \<Rightarrow> SfSparseVector \<Rightarrow> real \<Rightarrow> real \<Rightarrow> SfWeightVector
     \<Rightarrow> bool \<times> SfWeightVector" where
  "SinglePegasosRankStep a b eta lambda w =
     (let y = rank_label (GetY a) (GetY b);
          p = y * InnerProductOnDifference w a b;
          w1 = L2Regularize eta lambda w;
          w2 = (if p < 1 \<and> y \<noteq> 0
                then AddVector b (- 1 * eta * y) (AddVector a (eta * y) w1) else w1);
          w3 = PegasosProjection lambda w2
      in (p < 1 \<and> y \<noteq> 0, w3))"

definition SingleSgdSvmRankStep ::
  "SfSparseVector \<Rightarrow> SfSparseVector \<Rightarrow> real \<Rightarrow> real \<Rightarrow> SfWeightVector
     \<Rightarrow> bool \<times> SfWeightVector" where
  "SingleSgdSvmRankStep a b eta lambda w =
     (let y = rank_label (GetY a) (GetY b);
          p = y * InnerProductOnDifference w a b;
          w1 = L2Regularize eta lambda w;
          w2 = (if p < 1 \<and> y \<noteq> 0
                then AddVector b (- 1 * eta * y) (AddVector a (eta * y) w1) else w1)
      in (p < 1 \<and> y \<noteq> 0, w2))"

definition SingleLeastMeanSquaresRankStep ::
  "SfSparseVector \<Rightarrow> SfSparseVector \<Rightarrow> real \<Rightarrow> real \<Rightarrow> SfWeightVector
     \<Rightarrow> bool \<times> SfWeightVector" where
  "SingleLeastMeanSquaresRankStep a b eta lambda w =
     (let y = GetY a - GetY b;
          loss = y - InnerProductOnDifference w a b;
          w1 = L2Regularize eta lambda w;
          w2 = AddVector b (- 1 * eta * loss) (AddVector a (eta * loss) w1);
          w3 = PegasosProjection lambda w2
      in (True, w3))"

definition SingleRommaRankStep ::
  "SfSparseVector \<Rightarrow> SfSparseVector \<Rightarrow> SfWeightVector \<Rightarrow> bool \<times> SfWeightVector" where
  "SingleRommaRankStep a b w =
     (let y = rank_label (GetY a) (GetY b);
          x_diff = SfSparseVector_difference a b y
      in if y \<noteq> 0 then SingleRommaStep x_diff w else (False, w))"

text \<open>
  \<open>y_a\<close> and \<open>y_b\<close> are optional arguments: \<open>None\<close> is the value \<^verbatim>\<open>INF\<close> (a macro of
  the header, which is not among the sources), for which the label of the vector is taken.
\<close>

definition SinglePegasosLogRegRankStep ::
  "SfSparseVector \<Rightarrow> SfSparseVector \<Rightarrow> real \<Rightarrow> real \<Rightarrow> SfWeightVector
     \<Rightarrow> real option \<Rightarrow> real option \<Rightarrow> bool \<times> SfWeightVector" where
  "SinglePegasosLogRegRankStep a b eta lambda w y_a y_b =
     (let y_a1 = (case y_a of None \<Rightarrow> GetY a | Some v \<Rightarrow> v);
          y_b1 = (case y_b of None \<Rightarrow> GetY b | Some v \<Rightarrow> v);
          y = rank_label y_a1 y_b1;
          loss = y / (1 + exp (y * InnerProductOnDifference w a b));
          w1 = L2Regularize eta lambda w;
          w2 = AddVector b (- 1 * eta * loss) (AddVector a (eta * loss) w1);
          w3 = PegasosProjection lambda w2
      in (True, w3))"

definition SingleLogRegRankStep ::
  "SfSparseVector \<Rightarrow> SfSparseVector \<Rightarrow> real \<Rightarrow> real \<Rightarrow> SfWeightVector
     \<Rightarrow> bool \<times> SfWeightVector" where
  "SingleLogRegRankStep a b eta lambda w =
     (let y = rank_label (GetY a) (GetY b);
          loss = y / (1 + exp (y * InnerProductOnDifference w a b));
          w1 = L2Regularize eta lambda w;
          w2 = AddVector b (- 1 * eta * loss) (AddVector a (eta * loss) w1)
      in (True, w2))"

definition SingleMarginPerceptronRankStep ::
  "SfSparseVector \<Rightarrow> SfSparseVector \<Rightarrow> real \<Rightarrow> real \<Rightarrow> SfWeightVector
     \<Rightarrow> bool \<times> SfWeightVector" where
  "SingleMarginPerceptronRankStep a b eta c w =
     (let y = rank_label (GetY a) (GetY b)
      in if y * InnerProductOnDifference w a b \<le> c
         then (True, AddVector b (- 1 * eta) (AddVector a eta w))
         else (False, w))"

subsection \<open>Dispatch on the learner type (lines 252-313)\<close>

definition OneLearnerStep ::
  "LearnerType \<Rightarrow> SfSparseVector \<Rightarrow> real \<Rightarrow> real \<Rightarrow> real \<Rightarrow> SfWeightVector
     \<Rightarrow> error + (bool \<times> SfWeightVector)" where
  "OneLearnerStep learner_type x eta c lambda w =
     (case learner_type of
        PEGASOS \<Rightarrow> Inr (SinglePegasosStep x eta lambda w)
      | MARGIN_PERCEPTRON \<Rightarrow> Inr (SingleMarginPerceptronStep x eta c w)
      | PASSIVE_AGGRESSIVE \<Rightarrow> Inr (SinglePassiveAggressiveStep x lambda c w)
      | LOGREG_PEGASOS \<Rightarrow> Inr (SinglePegasosLogRegStep x eta lambda w)
      | LOGREG \<Rightarrow> Inr (SingleLogRegStep x eta lambda w)
      | LMS_REGRESSION \<Rightarrow> Inr (SingleLeastMeanSquaresStep x eta lambda w)
      | SGD_SVM \<Rightarrow> Inr (SingleSgdSvmStep x eta lambda w)
      | ROMMA \<Rightarrow> Inr (SingleRommaStep x w)
      | LearnerType_other v \<Rightarrow> Inl (Exit 0))"

definition OneLearnerRankStep ::
  "LearnerType \<Rightarrow> SfSparseVector \<Rightarrow> SfSparseVector \<Rightarrow> real \<Rightarrow> real \<Rightarrow> real
     \<Rightarrow> SfWeightVector \<Rightarrow> real option \<Rightarrow> real option \<Rightarrow> error + (bool \<times> SfWeightVector)" where
  "OneLearnerRankStep learner_type a b eta c lambda w y_a y_b =
     (case learner_type of
        PEGASOS \<Rightarrow> Inr (SinglePegasosRankStep a b eta lambda w)
      | MARGIN_PERCEPTRON \<Rightarrow> Inr (SingleMarginPerceptronRankStep a b eta c w)
      | PASSIVE_AGGRESSIVE \<Rightarrow> Inr (SinglePassiveAggressiveRankStep a b lambda c w)
      | LOGREG_PEGASOS \<Rightarrow> Inr (SinglePegasosLogRegRankStep a b eta lambda w y_a y_b)
      | LOGREG \<Rightarrow> Inr (SingleLogRegRankStep a b eta lambda w)
      | LMS_REGRESSION \<Rightarrow> Inr (SingleLeastMeanSquaresRankStep a b eta lambda w)
      | SGD_SVM \<Rightarrow> Inr (SingleSgdSvmRankStep a b eta lambda w)
      | ROMMA \<Rightarrow> Inr (SingleRommaRankStep a b w)
      | LearnerType_other v \<Rightarrow> Inl (Exit 0))"

subsection \<open>Stochastic loop strategy functions (lines 88-195)\<close>

text \<open>
  A loop \<^verbatim>\<open>for (int i = 1; i <= num_iters; ++i)\<close> runs its body \<open>nat num_iters\<close> times,
  with \<open>i = 1, 2, \<dots>\<close>; \<open>for_loop k i body\<close> runs \<open>k\<close> iterations from the index \<open>i\<close>.
  The state of a loop is the weight vector with the thread's generator.
\<close>

primrec for_loop :: "nat \<Rightarrow> int \<Rightarrow> (int \<Rightarrow> 's \<Rightarrow> error + 's) \<Rightarrow> 's \<Rightarrow> error + 's" where
  "for_loop 0 i body st = Inr st"
| "for_loop (Suc k) i body st = and_then (body i st) (for_loop k (i + 1) body)"


text \<open>
  The index of positives and negatives (lines 112-119 and, word for word, 167-174):
  the indices \<open>0, \<dots>, NumExamples - 1\<close> in order, each pushed on one of the two vectors.
\<close>

definition index_by_label :: "SfSparseVector list \<Rightarrow> nat list \<times> nat list" where
  "index_by_label training_set =
     foldl (\<lambda>(positives, negatives) i.
              if GetY (training_set ! i) > 0 then (positives @ [i], negatives)
              else (positives, negatives @ [i]))
           ([], []) [0..<length training_set]"

definition BalancedStochasticOuterLoop ::
  "SfSparseVector list \<Rightarrow> LearnerType \<Rightarrow> EtaType \<Rightarrow> real \<Rightarrow> real \<Rightarrow> int
     \<Rightarrow> SfWeightVector \<times> mt19937 \<Rightarrow> error + SfWeightVector \<times> mt19937" where
  "BalancedStochasticOuterLoop training_set learner_type eta_type lambda c num_iters =
     (let (positives, negatives) = index_by_label training_set
      in for_loop (nat num_iters) 1
           (\<lambda>i (w, g).
              and_then (GetEta eta_type lambda i) (\<lambda>eta.
              and_then (RandInt (length positives) g) (\<lambda>(k, g1).
              and_then (OneLearnerStep learner_type (training_set ! (positives ! k)) eta c lambda w)
                (\<lambda>(r, w1).
              and_then (RandInt (length negatives) g1) (\<lambda>(l, g2).
              and_then (OneLearnerStep learner_type (training_set ! (negatives ! l)) eta c lambda w1)
                (\<lambda>(r, w2). Inr (w2, g2))))))))"


definition StochasticClassificationAndRocLoop ::
  "SfSparseVector list \<Rightarrow> LearnerType \<Rightarrow> EtaType \<Rightarrow> real \<Rightarrow> real \<Rightarrow> real \<Rightarrow> int
     \<Rightarrow> SfWeightVector \<times> mt19937 \<Rightarrow> error + SfWeightVector \<times> mt19937" where
  "StochasticClassificationAndRocLoop training_set learner_type eta_type lambda c
       rank_step_probability num_iters =
     (let (positives, negatives) = index_by_label training_set
      in for_loop (nat num_iters) 1
           (\<lambda>i (w, g).
              and_then (GetEta eta_type lambda i) (\<lambda>eta.
              let (u, g0) = RandFloat g
              in if u < rank_step_probability
                 then
                   and_then (RandInt (length positives) g0) (\<lambda>(k, g1).
                   and_then (RandInt (length negatives) g1) (\<lambda>(l, g2).
                   and_then (OneLearnerRankStep learner_type (training_set ! (positives ! k))
                               (training_set ! (negatives ! l)) eta c lambda w None None)
                     (\<lambda>(r, w1). Inr (w1, g2))))
                 else
                   and_then (RandInt (length training_set) g0) (\<lambda>(random_example, g1).
                   and_then (GetEta eta_type lambda i) (\<lambda>eta1.
                   and_then (OneLearnerStep learner_type (training_set ! random_example) eta1 c lambda w)
                     (\<lambda>(r, w1). Inr (w1, g1)))))))"

text \<open>Fixtures for concrete runs: the zero weight vector and labelled unit vectors.\<close>

definition zero_weights :: SfWeightVector where
  "zero_weights = \<lparr>raw = (\<lambda>i. 0), scale = 1, squared_norm = 0\<rparr>"

definition unit_vector :: "nat \<Rightarrow> real \<Rightarrow> SfSparseVector" where
  "unit_vector i label = \<lparr>Features = [(i, 1)], GetY = label\<rparr>"


section \<open>Properties of the controller\<close>

lemma find_from_tail_None:
  "find_from_tail tr doc q k = None \<longleftrightarrow> (\<forall>i<k. tr (q ! i) \<noteq> doc)"
  by (induction k) (auto simp: less_Suc_eq)

lemma find_from_tail_Some:
  "find_from_tail tr doc q k = Some i \<Longrightarrow>
     i < k \<and> tr (q ! i) = doc \<and> (\<forall>j. i < j \<and> j < k \<longrightarrow> tr (q ! j) \<noteq> doc)"
proof (induction k)
  case 0
  then show ?case by simp
next
  case (Suc k)
  show ?case
  proof (cases "tr (q ! k) = doc")
    case True
    with Suc.prems show ?thesis by auto
  next
    case False
    with Suc.prems have "find_from_tail tr doc q k = Some i" by simp
    from Suc.IH [OF this] False show ?thesis by (auto simp: less_Suc_eq)
  qed
qed


lemma mset_remove_nth:
  "j < length xs \<Longrightarrow> add_mset (xs ! j) (mset (take j xs @ drop (Suc j) xs)) = mset xs"
proof -
  assume j: "j < length xs"
  then have "xs = take j xs @ xs ! j # drop (Suc j) xs" by (simp add: id_take_nth_drop)
  then have "mset xs = mset (take j xs @ xs ! j # drop (Suc j) xs)" by simp
  then show ?thesis by simp
qed

lemma shuffle_n_mset:
  "length xs = n \<Longrightarrow> mset (fst (shuffle_n n xs g)) = mset xs"
proof (induction n arbitrary: xs g)
  case 0
  then show ?case by simp
next
  case (Suc n)
  obtain r g1 where d: "next_draw g = (r, g1)" by (cases "next_draw g")
  let ?j = "r mod Suc n"
  let ?rest = "take ?j xs @ drop (Suc ?j) xs"
  have j: "?j < length xs" using Suc.prems by simp
  then have len: "length ?rest = n" using Suc.prems by simp
  obtain ys g2 where sh: "shuffle_n n ?rest g1 = (ys, g2)" by (cases "shuffle_n n ?rest g1")
  from Suc.IH [OF len, of g1] sh have "mset ys = mset ?rest" by simp
  then have "mset (xs ! ?j # ys) = mset xs" using mset_remove_nth [OF j] by simp
  then show ?case using d sh by simp
qed

lemma shuffle_mset: "mset (fst (shuffle xs g)) = mset xs"
  by (simp add: shuffle_def shuffle_n_mset)

lemma shuffle_length: "length (fst (shuffle xs g)) = length xs"
  using shuffle_mset [of xs g] by (metis size_mset)



lemma fold_judgment_fixed:
  "N (fold_judgment s j) = N s" "T (fold_judgment s j) = T s" "B (fold_judgment s j) = B s"
  "judgments_per_iteration (fold_judgment s j) = judgments_per_iteration s"
  "documents_get_index (fold_judgment s j) = documents_get_index s"
  "paragraphs_translate_index (fold_judgment s j) = paragraphs_translate_index s"
  "rand_generator (fold_judgment s j) = rand_generator s"
  by (simp_all add: fold_judgment_def add_to_training_cache_def Let_def split: option.splits)

lemma foldl_fold_judgment_fixed:
  "N (foldl fold_judgment s js) = N s" "T (foldl fold_judgment s js) = T s"
  "B (foldl fold_judgment s js) = B s"
  "judgments_per_iteration (foldl fold_judgment s js) = judgments_per_iteration s"
  "documents_get_index (foldl fold_judgment s js) = documents_get_index s"
  "paragraphs_translate_index (foldl fold_judgment s js) = paragraphs_translate_index s"
  "rand_generator (foldl fold_judgment s js) = rand_generator s"
  by (induction js arbitrary: s; simp add: fold_judgment_fixed)+



lemma enqueue_or_discard_fixed:
  "N (enqueue_or_discard sel batch s) = N s" "T (enqueue_or_discard sel batch s) = T s"
  "R (enqueue_or_discard sel batch s) = R s" "B (enqueue_or_discard sel batch s) = B s"
  "judgments_per_iteration (enqueue_or_discard sel batch s) = judgments_per_iteration s"
  "documents_get_index (enqueue_or_discard sel batch s) = documents_get_index s"
  "paragraphs_translate_index (enqueue_or_discard sel batch s) = paragraphs_translate_index s"
  "rand_generator (enqueue_or_discard sel batch s) = rand_generator s"
  by (induction sel batch s rule: enqueue_or_discard.induct; simp)+

lemma enqueue_or_discard_keeps:
  "judgments s p = Some (- 2) \<Longrightarrow> judgments (enqueue_or_discard sel batch s) p = Some (- 2)"
  by (induction sel batch s rule: enqueue_or_discard.induct) simp_all

lemma enqueue_or_discard_stays:
  "judgments s p \<noteq> None \<Longrightarrow> judgments (enqueue_or_discard sel batch s) p \<noteq> None"
  by (induction sel batch s rule: enqueue_or_discard.induct) simp_all

lemma enqueue_or_discard_dom:
  "dom (judgments s) \<subseteq> dom (judgments (enqueue_or_discard sel batch s))"
  using enqueue_or_discard_stays [of s _ sel batch] by (auto simp: dom_def)

lemma enqueue_or_discard_step:
  "enqueue_or_discard (map f [k..<k + length (p # batch)]) (p # batch) s =
   enqueue_or_discard (map f [Suc k..<Suc k + length batch]) batch
     (if f k \<noteq> 0 then s\<lparr>judgment_queue := judgment_queue s @ [p]\<rparr>
      else s\<lparr>judgments := (judgments s)(p \<mapsto> - 2)\<rparr>)"
proof -
  have "k < k + length (p # batch)" by simp
  from upt_conv_Cons [OF this]
  have upt: "[k..<k + length (p # batch)] = k # [Suc k..<Suc k + length batch]" by simp
  show ?thesis unfolding upt by (simp only: list.map enqueue_or_discard.simps)
qed

lemma enqueue_or_discard_queue:
  "judgment_queue (enqueue_or_discard (map (\<lambda>i. if int i < n then 1 else 0) [k..<k + length batch]) batch s)
     = judgment_queue s @ take (nat n - k) batch"
proof (induction batch arbitrary: k s)
  case Nil
  show ?case by simp
next
  case (Cons p batch)
  let ?f = "\<lambda>i. if int i < n then (1::int) else 0"
  let ?s = "if ?f k \<noteq> 0 then s\<lparr>judgment_queue := judgment_queue s @ [p]\<rparr>
      else s\<lparr>judgments := (judgments s)(p \<mapsto> - 2)\<rparr>"
  have "judgment_queue (enqueue_or_discard (map ?f [k..<k + length (p # batch)]) (p # batch) s)
      = judgment_queue ?s @ take (nat n - Suc k) batch"
    by (simp only: enqueue_or_discard_step Cons.IH)
  also have "\<dots> = judgment_queue s @ take (nat n - k) (p # batch)"
  proof (cases "int k < n")
    case True
    then have "nat n - k = Suc (nat n - Suc k)" by linarith
    with True show ?thesis by simp
  next
    case False
    then have "nat n - k = 0" "nat n - Suc k = 0" by linarith+
    with False show ?thesis by simp
  qed
  finally show ?case .
qed

lemma enqueue_or_discard_marks:
  "p \<in> set (drop (nat n - k) batch) \<Longrightarrow>
   judgments (enqueue_or_discard (map (\<lambda>i. if int i < n then 1 else 0) [k..<k + length batch]) batch s) p
     = Some (- 2)"
proof (induction batch arbitrary: k s)
  case Nil
  then show ?case by simp
next
  case (Cons q batch)
  let ?f = "\<lambda>i. if int i < n then (1::int) else 0"
  let ?s = "if ?f k \<noteq> 0 then s\<lparr>judgment_queue := judgment_queue s @ [q]\<rparr>
      else s\<lparr>judgments := (judgments s)(q \<mapsto> - 2)\<rparr>"
  have step: "enqueue_or_discard (map ?f [k..<k + length (q # batch)]) (q # batch) s
      = enqueue_or_discard (map ?f [Suc k..<Suc k + length batch]) batch ?s"
    by (simp only: enqueue_or_discard_step)
  show ?case
  proof (cases "int k < n")
    case True
    then have "nat n - k = Suc (nat n - Suc k)" by linarith
    with Cons.prems have "p \<in> set (drop (nat n - Suc k) batch)" by simp
    from Cons.IH [OF this] show ?thesis by (simp only: step)
  next
    case False
    then have z: "nat n - k = 0" "nat n - Suc k = 0" by linarith+
    show ?thesis
    proof (cases "p = q")
      case True
      with False have "judgments ?s p = Some (- 2)" by simp
      from enqueue_or_discard_keeps [OF this] show ?thesis by (simp only: step)
    next
      case neq: False
      with Cons.prems z have "p \<in> set (drop (nat n - Suc k) batch)" by simp
      from Cons.IH [OF this] show ?thesis by (simp only: step)
    qed
  qed
qed

lemma refill_Inr:
  assumes "refill s candidates = Inr s'"
  defines "T' \<equiv> (if R s \<ge> T s then 2 * T s else T s)"
  defines "n \<equiv> \<lceil>real_of_int (B s * N s) / real_of_int T'\<rceil>"
  defines "batch \<equiv> fst (shuffle candidates (rand_generator s))"
  shows "T s' = T'" "T' \<noteq> 0" "N s' = N s" "R s' = R s"
    "B s' = B s + \<lceil>real_of_int (B s) / 10\<rceil>"
    "judgments_per_iteration s' = B s"
    "judgment_queue s' = judgment_queue s @ take (nat n) batch"
    "\<forall>p \<in> set (drop (nat n) batch). judgments s' p = Some (- 2)"
    "dom (judgments s) \<subseteq> dom (judgments s')"
    "documents_get_index s' = documents_get_index s"
    "paragraphs_translate_index s' = paragraphs_translate_index s"
proof -
  let ?s1 = "if R s \<ge> T s then s\<lparr>T := push_bit 1 (T s)\<rparr> else s"
  let ?s2 = "?s1\<lparr>judgments_per_iteration := B ?s1\<rparr>"
  have T2: "T ?s2 = T'" by (simp add: T'_def push_bit_eq_mult)
  have f2: "B ?s2 = B s" "N ?s2 = N s" "R ?s2 = R s" "rand_generator ?s2 = rand_generator s"
    "judgment_queue ?s2 = judgment_queue s" "judgments ?s2 = judgments s"
    "documents_get_index ?s2 = documents_get_index s"
    "paragraphs_translate_index ?s2 = paragraphs_translate_index s"
    by simp_all
  from assms(1) T2 show nz: "T' \<noteq> 0"
    unfolding refill_def Let_def by (auto split: if_splits)
  obtain g where sh: "shuffle candidates (rand_generator s) = (batch, g)"
    unfolding batch_def by (cases "shuffle candidates (rand_generator s)") simp
  have len: "length batch = length candidates"
    using shuffle_length [of candidates "rand_generator s"] by (simp add: batch_def)
  let ?sel = "map (\<lambda>i. if int i < n then (1::int) else 0) [0..<0 + length batch]"
  let ?s3 = "enqueue_or_discard ?sel batch (?s2\<lparr>rand_generator := g\<rparr>)"
  have s': "s' = ?s3\<lparr>B := B ?s3 + \<lceil>real_of_int (B ?s3) / 10\<rceil>\<rparr>"
    using assms(1) nz T2 sh len f2
    unfolding refill_def Let_def n_def by (simp split: if_splits)
  show "T s' = T'" unfolding s' using T2 by (simp add: enqueue_or_discard_fixed)
  show "N s' = N s" unfolding s' by (simp add: enqueue_or_discard_fixed)
  show "R s' = R s" unfolding s' by (simp add: enqueue_or_discard_fixed)
  show "B s' = B s + \<lceil>real_of_int (B s) / 10\<rceil>"
    unfolding s' by (simp add: enqueue_or_discard_fixed)
  show "judgments_per_iteration s' = B s" unfolding s' by (simp add: enqueue_or_discard_fixed)
  show "documents_get_index s' = documents_get_index s"
    unfolding s' by (simp add: enqueue_or_discard_fixed)
  show "paragraphs_translate_index s' = paragraphs_translate_index s"
    unfolding s' by (simp add: enqueue_or_discard_fixed)
  have "judgment_queue ?s3 = judgment_queue (?s2\<lparr>rand_generator := g\<rparr>) @ take (nat n - 0) batch"
    by (rule enqueue_or_discard_queue)
  then show "judgment_queue s' = judgment_queue s @ take (nat n) batch"
    unfolding s' by simp
  show "\<forall>p \<in> set (drop (nat n) batch). judgments s' p = Some (- 2)"
  proof
    fix p assume "p \<in> set (drop (nat n) batch)"
    then have "p \<in> set (drop (nat n - 0) batch)" by simp
    from enqueue_or_discard_marks [OF this, of "?s2\<lparr>rand_generator := g\<rparr>"]
    show "judgments s' p = Some (- 2)" unfolding s' by simp
  qed
  have "dom (judgments (?s2\<lparr>rand_generator := g\<rparr>)) \<subseteq> dom (judgments ?s3)"
    by (rule enqueue_or_discard_dom)
  moreover have "judgments (?s2\<lparr>rand_generator := g\<rparr>) = judgments s" by simp
  moreover have "judgments s' = judgments ?s3" unfolding s' by simp
  ultimately show "dom (judgments s) \<subseteq> dom (judgments s')" by (simp only:)
qed

lemmas eval_defs = scenario_base_def new_BMI_para_scal_def record_judgment_batch_def refill_def
  fold_judgment_def add_to_training_cache_def shuffle_def next_draw_def Let_def

lemma ceiling_one_div_numeral [simp]: "\<lceil>1 / numeral b :: real\<rceil> = - (- 1 div numeral b)"
  using ceiling_divide_eq_div [of 1 "numeral b"] by simp

lemma record_judgment_batch_Inr:
  assumes "record_judgment_batch s js candidates = Inr s'"
  shows "if judgment_queue (foldl fold_judgment s js) = []
         then refill (foldl fold_judgment s js) candidates = Inr s'
         else s' = foldl fold_judgment s js"
  using assms by (auto simp: record_judgment_batch_def Let_def split: if_splits)

lemma record_judgment_batch_T:
  assumes "record_judgment_batch s js candidates = Inr s'"
  shows "T s' = (if judgment_queue (foldl fold_judgment s js) = [] \<and> R (foldl fold_judgment s js) \<ge> T s
                 then 2 * T s else T s)"
    and "N s' = N s"
proof -
  let ?s1 = "foldl fold_judgment s js"
  note h = record_judgment_batch_Inr [OF assms]
  show "T s' = (if judgment_queue ?s1 = [] \<and> R ?s1 \<ge> T s then 2 * T s else T s)"
  proof (cases "judgment_queue ?s1 = []")
    case True
    with h have "refill ?s1 candidates = Inr s'" by simp
    from refill_Inr(1) [OF this] True show ?thesis by (simp add: foldl_fold_judgment_fixed)
  next
    case False
    with h show ?thesis by (simp add: foldl_fold_judgment_fixed)
  qed
  show "N s' = N s"
  proof (cases "judgment_queue ?s1 = []")
    case True
    with h have "refill ?s1 candidates = Inr s'" by simp
    from refill_Inr(3) [OF this] show ?thesis by (simp add: foldl_fold_judgment_fixed)
  next
    case False
    with h show ?thesis by (simp add: foldl_fold_judgment_fixed)
  qed
qed

lemma run_T_invariant:
  "run s calls = Inr s' \<Longrightarrow> \<exists>k. T s = 2 ^ k * N s \<Longrightarrow> N s' = N s \<and> (\<exists>k. T s' = 2 ^ k * N s)"
proof (induction calls arbitrary: s)
  case Nil
  then show ?case by simp
next
  case (Cons call calls)
  from Cons.prems(1) obtain s1 where
    s1: "record_judgment_batch s (fst call) (snd call) = Inr s1" and r: "run s1 calls = Inr s'"
    by (auto split: sum.splits)
  from Cons.prems(2) obtain k where k: "T s = 2 ^ k * N s" by blast
  have N1: "N s1 = N s" by (rule record_judgment_batch_T(2) [OF s1])
  have "T s1 = 2 ^ k * N s \<or> T s1 = 2 ^ Suc k * N s"
    using record_judgment_batch_T(1) [OF s1] k by (auto split: if_splits)
  then have "\<exists>k. T s1 = 2 ^ k * N s1" using N1 by metis
  from Cons.IH [OF r this] N1 show ?case by simp
qed

lemma new_BMI_para_scal_fields:
  "N (new_BMI_para_scal base N0 batch0) = N0" "T (new_BMI_para_scal base N0 batch0) = N0"
  "R (new_BMI_para_scal base N0 batch0) = 0"
  "B (new_BMI_para_scal base N0 batch0) = B base + \<lceil>real_of_int (B base) / 10\<rceil>"
  "judgments_per_iteration (new_BMI_para_scal base N0 batch0) = B base"
  "judgment_queue (new_BMI_para_scal base N0 batch0) = judgment_queue base @ batch0"
  "judgments (new_BMI_para_scal base N0 batch0) = judgments base"
  by (simp_all add: new_BMI_para_scal_def Let_def)

lemma refill_defined:
  assumes "0 < T s"
  shows "\<exists>s'. refill s candidates = Inr s'"
proof -
  have "T (if R s \<ge> T s then s\<lparr>T := push_bit 1 (T s)\<rparr> else s) \<noteq> 0"
    using assms by (simp add: push_bit_eq_mult)
  then show ?thesis
    unfolding refill_def Let_def by (simp split: prod.splits)
qed

lemma record_judgment_batch_defined:
  assumes "0 < T s"
  shows "\<exists>s'. record_judgment_batch s js candidates = Inr s'"
proof -
  have "0 < T (foldl fold_judgment s js)" using assms by (simp add: foldl_fold_judgment_fixed)
  from refill_defined [OF this, of candidates] show ?thesis
    by (auto simp: record_judgment_batch_def Let_def)
qed

lemma record_judgment_batch_T_pos:
  assumes "record_judgment_batch s js candidates = Inr s'" "0 < T s"
  shows "0 < T s'"
  using record_judgment_batch_T(1) [OF assms(1)] assms(2) by (simp split: if_splits)

lemma run_defined: "0 < T s \<Longrightarrow> \<exists>s'. run s calls = Inr s'"
proof (induction calls arbitrary: s)
  case Nil
  show ?case by simp
next
  case (Cons call calls)
  from record_judgment_batch_defined [OF Cons.prems, of "fst call" "snd call"]
  obtain s1 where s1: "record_judgment_batch s (fst call) (snd call) = Inr s1" by blast
  from record_judgment_batch_T_pos [OF s1 Cons.prems] have "0 < T s1" .
  from Cons.IH [OF this] s1 show ?case by simp
qed

lemma run_T_pos: "run s calls = Inr s' \<Longrightarrow> 0 < T s \<Longrightarrow> 0 < T s'"
proof (induction calls arbitrary: s)
  case Nil
  then show ?case by simp
next
  case (Cons call calls)
  from Cons.prems(1) obtain s1 where
    s1: "record_judgment_batch s (fst call) (snd call) = Inr s1" and r: "run s1 calls = Inr s'"
    by (auto split: sum.splits)
  from record_judgment_batch_T_pos [OF s1 Cons.prems(2)] have "0 < T s1" .
  from Cons.IH [OF r this] show ?case .
qed




lemma ceiling_tenth_nonneg: "0 \<le> (b::int) \<Longrightarrow> 0 \<le> \<lceil>real_of_int b / 10\<rceil>"
  by (simp add: ceiling_divide_eq_div [of b 10, simplified]) 

lemma record_judgment_batch_B:
  assumes "record_judgment_batch s js candidates = Inr s'"
  shows "B s' = (if judgment_queue (foldl fold_judgment s js) = []
                 then B s + \<lceil>real_of_int (B s) / 10\<rceil> else B s)"
proof -
  let ?s1 = "foldl fold_judgment s js"
  note h = record_judgment_batch_Inr [OF assms]
  show ?thesis
  proof (cases "judgment_queue ?s1 = []")
    case True
    with h have "refill ?s1 candidates = Inr s'" by simp
    from refill_Inr(5) [OF this] True show ?thesis by (simp add: foldl_fold_judgment_fixed)
  next
    case False
    with h show ?thesis by (simp add: foldl_fold_judgment_fixed)
  qed
qed

lemma record_judgment_batch_B_mono:
  assumes "record_judgment_batch s js candidates = Inr s'" "0 \<le> B s"
  shows "B s \<le> B s'"
  using record_judgment_batch_B [OF assms(1)] ceiling_tenth_nonneg [OF assms(2)]
  by (simp split: if_splits)

lemma run_B_mono: "run s calls = Inr s' \<Longrightarrow> 0 \<le> B s \<Longrightarrow> B s \<le> B s'"
proof (induction calls arbitrary: s)
  case Nil
  then show ?case by simp
next
  case (Cons call calls)
  from Cons.prems(1) obtain s1 where
    s1: "record_judgment_batch s (fst call) (snd call) = Inr s1" and r: "run s1 calls = Inr s'"
    by (auto split: sum.splits)
  have 1: "B s \<le> B s1" by (rule record_judgment_batch_B_mono [OF s1 Cons.prems(2)])
  with Cons.prems(2) have "0 \<le> B s1" by simp
  from Cons.IH [OF r this] 1 show ?case by simp
qed

lemma session_defined_and_valid:
  assumes "0 < N0" "0 \<le> B base"
  shows "\<exists>s. run (new_BMI_para_scal base N0 batch0) calls = Inr s
           \<and> 0 \<le> B s \<and> 0 < N s \<and> 0 < T s"
proof -
  let ?s0 = "new_BMI_para_scal base N0 batch0"
  have T0: "0 < T ?s0" using assms(1) by (simp add: new_BMI_para_scal_fields)
  have B0: "0 \<le> B ?s0"
    using assms(2) ceiling_tenth_nonneg [OF assms(2)] by (simp add: new_BMI_para_scal_fields)
  from run_defined [OF T0, of calls] obtain s where s: "run ?s0 calls = Inr s" by blast
  have "N s = N0" using run_T_invariant [OF s, of ] 
    by (metis new_BMI_para_scal_fields(1) new_BMI_para_scal_fields(2) mult_1 power_0)
  moreover have "0 < T s" by (rule run_T_pos [OF s T0])
  moreover have "0 \<le> B s" using run_B_mono [OF s B0] B0 by simp
  ultimately show ?thesis using s assms(1) by auto
qed



lemma find_from_tail_hit:
  "find_from_tail tr doc q (length q) \<noteq> None \<longleftrightarrow> (\<exists>p \<in> set q. tr p = doc)"
proof -
  have "(\<exists>p \<in> set q. tr p = doc) \<longleftrightarrow> (\<exists>i<length q. tr (q ! i) = doc)"
    by (metis in_set_conv_nth)
  then show ?thesis using find_from_tail_None [of tr doc q "length q"] by auto
qed

lemma fold_judgment_R:
  "R (fold_judgment s j) = R s + int (counted_judgments s [j])"
proof (cases "find_from_tail (paragraphs_translate_index s) (documents_get_index s (fst j))
                (judgment_queue s) (length (judgment_queue s))")
  case None
  then have "\<not> (\<exists>p \<in> set (judgment_queue s).
      paragraphs_translate_index s p = documents_get_index s (fst j))"
    using find_from_tail_hit by blast
  with None show ?thesis
    by (simp add: fold_judgment_def add_to_training_cache_def Let_def)
next
  case (Some i)
  then have "\<exists>p \<in> set (judgment_queue s).
      paragraphs_translate_index s p = documents_get_index s (fst j)"
    using find_from_tail_hit by (metis option.distinct(1))
  with Some show ?thesis
    by (simp add: fold_judgment_def add_to_training_cache_def Let_def)
qed

lemma foldl_fold_judgment_R:
  "R (foldl fold_judgment s js) = R s + int (counted_judgments s js)"
proof (induction js arbitrary: s)
  case Nil
  show ?case by simp
next
  case (Cons j js)
  have "R (foldl fold_judgment (fold_judgment s j) js)
      = R (fold_judgment s j) + int (counted_judgments (fold_judgment s j) js)"
    by (rule Cons.IH)
  with fold_judgment_R [of s j] show ?case by simp
qed

lemma record_judgment_batch_R:
  assumes "record_judgment_batch s js candidates = Inr s'"
  shows "R s' = R s + int (counted_judgments s js)"
proof -
  let ?s1 = "foldl fold_judgment s js"
  note h = record_judgment_batch_Inr [OF assms]
  show ?thesis
  proof (cases "judgment_queue ?s1 = []")
    case True
    with h have "refill ?s1 candidates = Inr s'" by simp
    from refill_Inr(4) [OF this] show ?thesis by (simp add: foldl_fold_judgment_R)
  next
    case False
    with h show ?thesis by (simp add: foldl_fold_judgment_R)
  qed
qed

lemma run_R: "run s calls = Inr s' \<Longrightarrow> R s' = R s + int (counted_session s calls)"
proof (induction calls arbitrary: s)
  case Nil
  then show ?case by simp
next
  case (Cons call calls)
  from Cons.prems(1) obtain s1 where
    s1: "record_judgment_batch s (fst call) (snd call) = Inr s1" and r: "run s1 calls = Inr s'"
    by (auto split: sum.splits)
  from Cons.IH [OF r] record_judgment_batch_R [OF s1] s1 show ?case by simp
qed

lemma counted_judgments_le:
  "counted_judgments s js \<le> length (filter (\<lambda>j. snd j > 0) js)"
  by (induction js arbitrary: s) (auto simp: le_SucI)

lemma counted_session_le:
  "counted_session s calls \<le> length (filter (\<lambda>j. snd j > 0) (concat (map fst calls)))"
proof (induction calls arbitrary: s)
  case Nil
  show ?case by simp
next
  case (Cons call calls)
  show ?case
  proof (cases "record_judgment_batch s (fst call) (snd call)")
    case (Inl e)
    then show ?thesis using counted_judgments_le [of s "fst call"] by simp
  next
    case (Inr s1)
    then show ?thesis
      using counted_judgments_le [of s "fst call"] Cons.IH [of s1] by simp
  qed
qed

text \<open>
  Claim C1, as amended.  After any session on a fresh controller (a session returns when
  \<open>N > 0\<close>), \<open>R\<close> is the number of
  submitted judgments with a positive label whose document had a paragraph in the judgment
  queue when the judgment was folded in (the judgments that removed a queue entry).  It is
  at most the number of positive judgments submitted.
\<close>

theorem relevant_counter_counts_queue_hits:
  "(\<forall>s. run (new_BMI_para_scal base N0 batch0) calls = Inr s \<longrightarrow>
       R s = int (counted_session (new_BMI_para_scal base N0 batch0) calls)
       \<and> R s \<le> int (length (filter (\<lambda>j. snd j > 0) (concat (map fst calls)))))
   \<and> (0 < N0 \<longrightarrow> (\<exists>s. run (new_BMI_para_scal base N0 batch0) calls = Inr s))"
proof (intro conjI allI impI)
  fix s assume r: "run (new_BMI_para_scal base N0 batch0) calls = Inr s"
  from run_R [OF r] show "R s = int (counted_session (new_BMI_para_scal base N0 batch0) calls)"
    by (simp add: new_BMI_para_scal_fields)
  with counted_session_le [of "new_BMI_para_scal base N0 batch0" calls]
  show "R s \<le> int (length (filter (\<lambda>j. snd j > 0) (concat (map fst calls))))" by simp
next
  assume "0 < N0"
  then have "0 < T (new_BMI_para_scal base N0 batch0)" by (simp add: new_BMI_para_scal_fields)
  then show "\<exists>s. run (new_BMI_para_scal base N0 batch0) calls = Inr s" by (rule run_defined)
qed

theorem relevant_counter_counts_queue_hits_witness:
  "\<exists>s. run (new_BMI_para_scal scenario_base 1 [1]) [([(''D1'', 1), (''D2'', 1)], [2, 3, 4])] = Inr s
     \<and> R s = 1
     \<and> counted_session (new_BMI_para_scal scenario_base 1 [1]) [([(''D1'', 1), (''D2'', 1)], [2, 3, 4])] = 1"
proof -
  let ?s0 = "new_BMI_para_scal scenario_base 1 [1]"
  let ?calls = "[([(''D1'', 1), (''D2'', 1)], [2, 3, 4])]"
  have "\<exists>s. run ?s0 ?calls = Inr s \<and> R s = 1"
    by (simp add: eval_defs)
  then obtain s where s: "run ?s0 ?calls = Inr s" "R s = 1" by blast
  from relevant_counter_counts_queue_hits [of scenario_base 1 "[1]" ?calls] s show ?thesis by auto
qed

text \<open>
  Claim C1, as stated, fails: a judgment \<open>+1\<close> for document 2, none of whose paragraphs
  is queued, enters the labeled cache and leaves \<open>R = 0\<close>.
\<close>

theorem relevant_counter_counterexample:
  "\<exists>s. run (new_BMI_para_scal scenario_base 1 [1]) [([(''D2'', 1)], [])] = Inr s
     \<and> judgments s 2 = Some 1
     \<and> received_positive [([(''D2'', 1)], [])] = 1
     \<and> R s = 0
     \<and> R s \<noteq> int (received_positive [([(''D2'', 1)], [])])"
  by (simp add: eval_defs received_positive_def)

lemma fold_judgment_hit:
  assumes "find_from_tail (paragraphs_translate_index s) (documents_get_index s (fst j))
             (judgment_queue s) (length (judgment_queue s)) = Some i"
  shows "judgment_queue (fold_judgment s j)
           = take i (judgment_queue s) @ drop (Suc i) (judgment_queue s)"
    and "R (fold_judgment s j) = (if snd j > 0 then R s + 1 else R s)"
  using assms by (simp_all add: fold_judgment_def add_to_training_cache_def Let_def)

lemma fold_judgment_miss:
  assumes "find_from_tail (paragraphs_translate_index s) (documents_get_index s (fst j))
             (judgment_queue s) (length (judgment_queue s)) = None"
  shows "judgment_queue (fold_judgment s j) = judgment_queue s"
    and "R (fold_judgment s j) = R s"
  using assms by (simp_all add: fold_judgment_def add_to_training_cache_def Let_def)

lemma fold_judgment_cache:
  "judgments (fold_judgment s j) (documents_get_index s (fst j)) = Some (snd j)"
  by (simp add: fold_judgment_def add_to_training_cache_def Let_def split: option.splits)

lemma fold_judgment_removes_last_match:
  fixes s j
  defines "tr \<equiv> paragraphs_translate_index s"
  defines "doc \<equiv> documents_get_index s (fst j)"
  defines "q \<equiv> judgment_queue s"
  shows "if \<exists>p \<in> set q. tr p = doc
     then \<exists>pre p post. q = pre @ p # post \<and> tr p = doc \<and> (\<forall>x \<in> set post. tr x \<noteq> doc)
            \<and> judgment_queue (fold_judgment s j) = pre @ post
            \<and> R (fold_judgment s j) = (if snd j > 0 then R s + 1 else R s)
     else judgment_queue (fold_judgment s j) = q \<and> R (fold_judgment s j) = R s"
proof (cases "find_from_tail tr doc q (length q)")
  case None
  then have "\<not> (\<exists>p \<in> set q. tr p = doc)" using find_from_tail_hit [of tr doc q] by simp
  moreover from None have "judgment_queue (fold_judgment s j) = q \<and> R (fold_judgment s j) = R s"
    using fold_judgment_miss [of s j] by (simp add: tr_def doc_def q_def)
  ultimately show ?thesis by simp
next
  case (Some i)
  then have hit: "\<exists>p \<in> set q. tr p = doc" using find_from_tail_hit [of tr doc q] by simp
  from find_from_tail_Some [OF Some]
  have i: "i < length q" "tr (q ! i) = doc" "\<forall>k. i < k \<and> k < length q \<longrightarrow> tr (q ! k) \<noteq> doc"
    by auto
  have split: "q = take i q @ q ! i # drop (Suc i) q" using i(1) by (simp add: id_take_nth_drop)
  have post: "\<forall>x \<in> set (drop (Suc i) q). tr x \<noteq> doc"
  proof
    fix x assume "x \<in> set (drop (Suc i) q)"
    then obtain k where k: "k < length (drop (Suc i) q)" "x = drop (Suc i) q ! k"
      by (auto simp: in_set_conv_nth)
    then have "x = q ! (Suc i + k)" "Suc i + k < length q" by auto
    with i(3) show "tr x \<noteq> doc" by simp
  qed
  from Some have "judgment_queue (fold_judgment s j) = take i q @ drop (Suc i) q"
    and "R (fold_judgment s j) = (if snd j > 0 then R s + 1 else R s)"
    using fold_judgment_hit [of s j i] by (simp_all add: tr_def doc_def q_def)
  with split i(2) post hit show ?thesis by auto
qed

lemma fold_judgment_length:
  "length (judgment_queue s) \<le> Suc (length (judgment_queue (fold_judgment s j)))"
proof (cases "find_from_tail (paragraphs_translate_index s) (documents_get_index s (fst j))
                (judgment_queue s) (length (judgment_queue s))")
  case None
  from fold_judgment_miss(1) [OF this] show ?thesis by simp
next
  case (Some i)
  from find_from_tail_Some [OF Some] have "i < length (judgment_queue s)" by simp
  with fold_judgment_hit(1) [OF Some] show ?thesis by simp
qed

lemma scenario_S3:
  assumes "paragraphs_translate_index s p1 = documents_get_index s key"
    and "paragraphs_translate_index s p2 = documents_get_index s key"
    and "paragraphs_translate_index s p3 \<noteq> documents_get_index s key"
    and "judgment_queue s = [p1, p2, p3]" and "R s = 0"
  shows "\<exists>s'. record_judgment_batch s [(key, 1)] candidates = Inr s'
           \<and> judgment_queue s' = [p1, p3] \<and> R s' = 1"
proof -
  have f: "find_from_tail (paragraphs_translate_index s) (documents_get_index s key)
     [p1, p2, p3] (length [p1, p2, p3]) = Some 1"
    using assms(1-3) by (simp add: numeral_3_eq_3)
  have "judgment_queue (fold_judgment s (key, 1)) = [p1, p3] \<and> R (fold_judgment s (key, 1)) = 1"
    using f assms(4,5) fold_judgment_hit [of s "(key, 1)" 1] by simp
  then show ?thesis by (simp add: record_judgment_batch_def)
qed

text \<open>
  Claim C4.  Folding one judgment scans the queue from its tail and removes exactly the
  last entry whose parent document is the judged one, if there is one: the queue
  \<open>pre @ p # post\<close> with no match in \<open>post\<close> becomes \<open>pre @ post\<close> (matches in
  \<open>pre\<close> stay queued) and \<open>R\<close> grows by one when the label is positive; without a match
  queue and \<open>R\<close> are unchanged.  So at most one entry goes per judgment.  Scenario S3: with
  the queue \<open>[P1, P2, P3]\<close>, \<open>P1\<close> and \<open>P2\<close> in the judged document and \<open>P3\<close> in
  another, the judgment \<open>+1\<close> leaves \<open>[P1, P3]\<close> and \<open>R = 1\<close>.
\<close>

theorem judgment_removes_last_matching_entry:
  "(if \<exists>p \<in> set (judgment_queue s). paragraphs_translate_index s p = documents_get_index s (fst j)
    then \<exists>pre p post. judgment_queue s = pre @ p # post
           \<and> paragraphs_translate_index s p = documents_get_index s (fst j)
           \<and> (\<forall>x \<in> set post. paragraphs_translate_index s x \<noteq> documents_get_index s (fst j))
           \<and> judgment_queue (fold_judgment s j) = pre @ post
           \<and> R (fold_judgment s j) = (if snd j > 0 then R s + 1 else R s)
    else judgment_queue (fold_judgment s j) = judgment_queue s \<and> R (fold_judgment s j) = R s)
   \<and> length (judgment_queue s) \<le> Suc (length (judgment_queue (fold_judgment s j)))
   \<and> (\<forall>p1 p2 p3 key candidates.
        paragraphs_translate_index s p1 = documents_get_index s key
        \<and> paragraphs_translate_index s p2 = documents_get_index s key
        \<and> paragraphs_translate_index s p3 \<noteq> documents_get_index s key
        \<and> judgment_queue s = [p1, p2, p3] \<and> R s = 0
        \<longrightarrow> (\<exists>s'. record_judgment_batch s [(key, 1)] candidates = Inr s'
               \<and> judgment_queue s' = [p1, p3] \<and> R s' = 1))"
  using fold_judgment_removes_last_match [of s j] fold_judgment_length [of s j] scenario_S3 [of s]
  by (intro conjI allI impI) blast+

theorem judgment_removes_last_matching_entry_witness:
  "\<exists>s'. record_judgment_batch (new_BMI_para_scal scenario_base 10 [1, 2, 3]) [(''D1'', 1)] [] = Inr s'
     \<and> judgment_queue (new_BMI_para_scal scenario_base 10 [1, 2, 3]) = [1, 2, 3]
     \<and> judgment_queue s' = [1, 3] \<and> R s' = 1"
proof -
  let ?s = "new_BMI_para_scal scenario_base 10 [1, 2, 3]"
  have pre: "paragraphs_translate_index ?s 1 = documents_get_index ?s ''D1''"
    "paragraphs_translate_index ?s 2 = documents_get_index ?s ''D1''"
    "paragraphs_translate_index ?s 3 \<noteq> documents_get_index ?s ''D1''"
    "judgment_queue ?s = [1, 2, 3]" "R ?s = 0"
    by (simp_all add: eval_defs)
  from judgment_removes_last_matching_entry [of ?s "(''D1'', 1)"] pre
  have "\<exists>s'. record_judgment_batch ?s [(''D1'', 1)] [] = Inr s'
          \<and> judgment_queue s' = [1, 3] \<and> R s' = 1" by blast
  with pre show ?thesis by blast
qed







section \<open>Properties of the learner\<close>

lemmas step_defs = SinglePegasosStep_def SingleMarginPerceptronRankStep_def
  SinglePassiveAggressiveStep_def SinglePassiveAggressiveRankStep_def
  SinglePegasosRankStep_def SingleSgdSvmRankStep_def SingleMarginPerceptronStep_def
  rank_label_def InnerProductOnDifference_def InnerProduct_def AddVector_def add_feature_def
  ScaleBy_def L2Regularize_def PegasosProjection_def GetSquaredNorm_def GetSquaredNorm_w_def
  zero_weights_def unit_vector_def MIN_SCALING_FACTOR_def Let_def


lemma margin_perceptron_rank_update:
  "SingleMarginPerceptronRankStep a b eta c w =
     (if rank_label (GetY a) (GetY b) * InnerProductOnDifference w a b \<le> c
      then (True, AddVector b (- eta) (AddVector a eta w)) else (False, w))"
  by (simp add: SingleMarginPerceptronRankStep_def Let_def)

lemma sgd_svm_rank_follows_label:
  "SingleSgdSvmRankStep (unit_vector 0 (- 1)) (unit_vector 1 1) 1 0 zero_weights
     = (True, \<lparr>raw = (\<lambda>i. 0)(0 := - 1, 1 := 1), scale = 1, squared_norm = 2\<rparr>)"
  "SingleSgdSvmRankStep (unit_vector 0 1) (unit_vector 1 1) 1 0 zero_weights
     = (False, zero_weights)"
  by (simp_all add: step_defs)

text \<open>
  Claim C5 at a failing input.  With \<open>w = 0\<close>, \<open>\<eta> = 1\<close>, \<open>c = 0\<close>, \<open>a = e\<^sub>0\<close> labelled
  \<open>-1\<close> and \<open>b = e\<^sub>1\<close> labelled \<open>+1\<close>, the label of the pair is \<open>y = -1\<close> and the test
  \<open>y * (w\<cdot>(a - b)) \<le> c\<close> holds; the margin perceptron rank step adds \<open>+\<eta>\<close> to the
  features of \<open>a\<close> and \<open>-\<eta>\<close> to those of \<open>b\<close>, where \<open>w += \<eta> * y * (a - b)\<close> adds
  \<open>-\<eta>\<close> and \<open>+\<eta>\<close>.  With tied labels (\<open>y = 0\<close>) it performs the same update, where
  the claim has none.
\<close>

theorem margin_perceptron_rank_step_ignores_label:
  "rank_label (GetY (unit_vector 0 (- 1))) (GetY (unit_vector 1 1)) = - 1
   \<and> SingleMarginPerceptronRankStep (unit_vector 0 (- 1)) (unit_vector 1 1) 1 0 zero_weights
       = (True, \<lparr>raw = (\<lambda>i. 0)(0 := 1, 1 := - 1), scale = 1, squared_norm = 2\<rparr>)
   \<and> rank_label (GetY (unit_vector 0 1)) (GetY (unit_vector 1 1)) = 0
   \<and> SingleMarginPerceptronRankStep (unit_vector 0 1) (unit_vector 1 1) 1 0 zero_weights
       = (True, \<lparr>raw = (\<lambda>i. 0)(0 := 1, 1 := - 1), scale = 1, squared_norm = 2\<rparr>)"
  by (simp add: step_defs)

lemma passive_aggressive_result:
  "fst (SinglePassiveAggressiveStep x lambda max_step w)
     \<longleftrightarrow> 1 - GetY x * InnerProduct w x < 1 \<and> GetY x \<noteq> 0"
  by (simp add: SinglePassiveAggressiveStep_def Let_def)

lemma passive_aggressive_rank_result:
  "fst (SinglePassiveAggressiveRankStep a b lambda max_step w)
     \<longleftrightarrow> 1 - rank_label (GetY a) (GetY b) * InnerProductOnDifference w a b > 0
         \<and> rank_label (GetY a) (GetY b) \<noteq> 0"
  by (simp add: SinglePassiveAggressiveRankStep_def Let_def)

text \<open>
  Claim C6 at two failing inputs.  With \<open>w = 0\<close>, \<open>x = e\<^sub>0\<close> labelled \<open>+1\<close>, \<open>\<lambda> = 0\<close>
  and \<open>max_step = 1\<close> the loss is \<open>p = 1 > 0\<close> and the step adds \<open>x\<close> to \<open>w\<close>, yet the
  function returns false.  With \<open>w = 2 e\<^sub>0\<close> the loss is zero (\<open>p = -1\<close>), \<open>w\<close> is left
  alone, and the function returns true.
\<close>

theorem passive_aggressive_step_return_value:
  "1 - GetY (unit_vector 0 1) * InnerProduct zero_weights (unit_vector 0 1) = 1
   \<and> SinglePassiveAggressiveStep (unit_vector 0 1) 0 1 zero_weights
       = (False, \<lparr>raw = (\<lambda>i. 0)(0 := 1), scale = 1, squared_norm = 1\<rparr>)
   \<and> 1 - GetY (unit_vector 0 1)
           * InnerProduct \<lparr>raw = (\<lambda>i. 0)(0 := 2), scale = 1, squared_norm = 4\<rparr> (unit_vector 0 1) = - 1
   \<and> SinglePassiveAggressiveStep (unit_vector 0 1) 0 1
         \<lparr>raw = (\<lambda>i. 0)(0 := 2), scale = 1, squared_norm = 4\<rparr>
       = (True, \<lparr>raw = (\<lambda>i. 0)(0 := 2), scale = 1, squared_norm = 4\<rparr>)"
  by (simp add: step_defs)




lemma and_then_Inr: "and_then (Inr v) f = f v"
  by (simp add: and_then_def)













lemma bucket_foldl:
  "foldl (\<lambda>(positives, negatives) i.
            if P i then (positives @ [i], negatives) else (positives, negatives @ [i]))
         (ps, ns) xs
     = (ps @ filter P xs, ns @ filter (\<lambda>i. \<not> P i) xs)"
  by (induction xs arbitrary: ps ns) simp_all

lemma index_by_label_eq:
  "index_by_label training_set =
     (filter (\<lambda>i. GetY (training_set ! i) > 0) [0..<length training_set],
      filter (\<lambda>i. \<not> GetY (training_set ! i) > 0) [0..<length training_set])"
  unfolding index_by_label_def
  using bucket_foldl [of "\<lambda>i. GetY (training_set ! i) > 0" "[]" "[]" "[0..<length training_set]"]
  by simp

lemma RandInt_pick:
  "k < n \<Longrightarrow> RandInt n (k # g) = Inr (k, g)"
  by (simp add: RandInt_def next_draw_def)

lemma RandFloat_zero: "RandFloat (0 # g) = (0, g)"
  by (simp add: RandFloat_def next_draw_def)

lemma for_loop_once: "for_loop (nat 1) 1 body st = body 1 st"
  by (cases "body 1 st") (simp_all add: and_then_def)

lemma balanced_loop_steps_on:
  assumes idx: "index_by_label training_set = (positives, negatives)"
    and k: "k < length positives" and l: "l < length negatives"
  shows "BalancedStochasticOuterLoop training_set lt et lambda c 1 (w, [k, l]) =
     and_then (GetEta et lambda 1) (\<lambda>eta.
     and_then (OneLearnerStep lt (training_set ! (positives ! k)) eta c lambda w) (\<lambda>(r, w1).
     and_then (OneLearnerStep lt (training_set ! (negatives ! l)) eta c lambda w1) (\<lambda>(r, w2).
       Inr (w2, []))))"
  unfolding BalancedStochasticOuterLoop_def idx Let_def prod.case for_loop_once
  using k l
  by (simp add: RandInt_pick and_then_def split: sum.splits prod.splits)

lemma classification_and_roc_loop_steps_on:
  assumes idx: "index_by_label training_set = (positives, negatives)"
    and k: "k < length positives" and l: "l < length negatives"
    and p: "0 < rank_step_probability"
  shows "StochasticClassificationAndRocLoop training_set lt et lambda c rank_step_probability 1
           (w, [0, k, l]) =
     and_then (GetEta et lambda 1) (\<lambda>eta.
     and_then (OneLearnerRankStep lt (training_set ! (positives ! k))
                 (training_set ! (negatives ! l)) eta c lambda w None None) (\<lambda>(r, w1).
       Inr (w1, [])))"
  unfolding StochasticClassificationAndRocLoop_def idx Let_def prod.case for_loop_once
  using k l p
  by (simp add: RandInt_pick RandFloat_zero and_then_def split: sum.splits prod.splits)

text \<open>
  Claim C10.  The index that \<open>BalancedStochasticOuterLoop\<close> and
  \<open>StochasticClassificationAndRocLoop\<close> build puts example \<open>i\<close> among the positives
  exactly when its label is \<open>> 0\<close> and among the negatives exactly when its label is
  \<open>\<le> 0\<close>; an example with label \<open>0\<close> is a negative.  Every negative can be the one that a
  step is taken on: for each positive \<open>i\<close> and negative \<open>j\<close> some state of the generator
  makes one iteration of the balanced loop step on \<open>i\<close> and then on \<open>j\<close>, and (with a
  positive rank-step probability) one iteration of the other loop take the rank step on the
  pair \<open>(i, j)\<close>.
\<close>

theorem negatives_bucket_holds_nonpositive_labels:
  assumes "index_by_label training_set = (positives, negatives)"
  shows "(\<forall>i. i \<in> set positives \<longleftrightarrow> i < length training_set \<and> GetY (training_set ! i) > 0)
   \<and> (\<forall>i. i \<in> set negatives \<longleftrightarrow> i < length training_set \<and> GetY (training_set ! i) \<le> 0)
   \<and> (\<forall>i. i < length training_set \<and> GetY (training_set ! i) = 0 \<longrightarrow> i \<in> set negatives)
   \<and> (\<forall>i j. i \<in> set positives \<and> j \<in> set negatives \<longrightarrow>
         (\<exists>g g'. BalancedStochasticOuterLoop training_set lt et lambda c 1 (w, g) =
            and_then (GetEta et lambda 1) (\<lambda>eta.
            and_then (OneLearnerStep lt (training_set ! i) eta c lambda w) (\<lambda>(r, w1).
            and_then (OneLearnerStep lt (training_set ! j) eta c lambda w1) (\<lambda>(r, w2).
              Inr (w2, g'))))))
   \<and> (\<forall>i j. i \<in> set positives \<and> j \<in> set negatives \<and> 0 < rank_step_probability \<longrightarrow>
         (\<exists>g g'. StochasticClassificationAndRocLoop training_set lt et lambda c
                    rank_step_probability 1 (w, g) =
            and_then (GetEta et lambda 1) (\<lambda>eta.
            and_then (OneLearnerRankStep lt (training_set ! i) (training_set ! j) eta c lambda w
                        None None) (\<lambda>(r, w1).
              Inr (w1, g')))))"
proof -
  from assms index_by_label_eq [of training_set]
  have ps: "positives = filter (\<lambda>i. GetY (training_set ! i) > 0) [0..<length training_set]"
    and ns: "negatives = filter (\<lambda>i. \<not> GetY (training_set ! i) > 0) [0..<length training_set]"
    by simp_all
  have 1: "\<forall>i. i \<in> set positives \<longleftrightarrow> i < length training_set \<and> GetY (training_set ! i) > 0"
    unfolding ps by auto
  have 2: "\<forall>i. i \<in> set negatives \<longleftrightarrow> i < length training_set \<and> GetY (training_set ! i) \<le> 0"
    unfolding ns by auto
  have 3: "\<forall>i. i < length training_set \<and> GetY (training_set ! i) = 0 \<longrightarrow> i \<in> set negatives"
    using 2 by simp
  have 4: "\<forall>i j. i \<in> set positives \<and> j \<in> set negatives \<longrightarrow>
         (\<exists>g g'. BalancedStochasticOuterLoop training_set lt et lambda c 1 (w, g) =
            and_then (GetEta et lambda 1) (\<lambda>eta.
            and_then (OneLearnerStep lt (training_set ! i) eta c lambda w) (\<lambda>(r, w1).
            and_then (OneLearnerStep lt (training_set ! j) eta c lambda w1) (\<lambda>(r, w2).
              Inr (w2, g')))))"
  proof (intro allI impI)
    fix i j assume "i \<in> set positives \<and> j \<in> set negatives"
    then obtain k l where k: "k < length positives" "positives ! k = i"
      and l: "l < length negatives" "negatives ! l = j"
      by (auto simp: in_set_conv_nth)
    from balanced_loop_steps_on [OF assms k(1) l(1), of lt et lambda c w] k(2) l(2)
    show "\<exists>g g'. BalancedStochasticOuterLoop training_set lt et lambda c 1 (w, g) =
            and_then (GetEta et lambda 1) (\<lambda>eta.
            and_then (OneLearnerStep lt (training_set ! i) eta c lambda w) (\<lambda>(r, w1).
            and_then (OneLearnerStep lt (training_set ! j) eta c lambda w1) (\<lambda>(r, w2).
              Inr (w2, g'))))"
      by (intro exI [of _ "[k, l]"] exI [of _ "[]"]) simp
  qed
  have 5: "\<forall>i j. i \<in> set positives \<and> j \<in> set negatives \<and> 0 < rank_step_probability \<longrightarrow>
         (\<exists>g g'. StochasticClassificationAndRocLoop training_set lt et lambda c
                    rank_step_probability 1 (w, g) =
            and_then (GetEta et lambda 1) (\<lambda>eta.
            and_then (OneLearnerRankStep lt (training_set ! i) (training_set ! j) eta c lambda w
                        None None) (\<lambda>(r, w1).
              Inr (w1, g'))))"
  proof (intro allI impI)
    fix i j assume h: "i \<in> set positives \<and> j \<in> set negatives \<and> 0 < rank_step_probability"
    then obtain k l where k: "k < length positives" "positives ! k = i"
      and l: "l < length negatives" "negatives ! l = j"
      by (auto simp: in_set_conv_nth)
    from h have p: "0 < rank_step_probability" by simp
    from classification_and_roc_loop_steps_on [OF assms k(1) l(1) p, of lt et lambda c w] k(2) l(2)
    show "\<exists>g g'. StochasticClassificationAndRocLoop training_set lt et lambda c
                    rank_step_probability 1 (w, g) =
            and_then (GetEta et lambda 1) (\<lambda>eta.
            and_then (OneLearnerRankStep lt (training_set ! i) (training_set ! j) eta c lambda w
                        None None) (\<lambda>(r, w1).
              Inr (w1, g')))"
      by (intro exI [of _ "[0, k, l]"] exI [of _ "[]"]) simp
  qed
  show ?thesis using 1 2 3 4 5 by - (intro conjI, assumption+)
qed

theorem negatives_bucket_holds_nonpositive_labels_witness:
  "index_by_label [unit_vector 0 1, unit_vector 0 0, unit_vector 1 (- 1)] = ([0], [1, 2])
   \<and> GetY ([unit_vector 0 1, unit_vector 0 0, unit_vector 1 (- 1)] ! 1) = 0
   \<and> 1 \<in> set [1, 2::nat]
   \<and> (1 \<in> set [1, 2::nat] \<longleftrightarrow>
        1 < length [unit_vector 0 1, unit_vector 0 0, unit_vector 1 (- 1)]
        \<and> GetY ([unit_vector 0 1, unit_vector 0 0, unit_vector 1 (- 1)] ! 1) \<le> 0)"
proof -
  let ?ts = "[unit_vector 0 1, unit_vector 0 0, unit_vector 1 (- 1)]"
  have idx: "index_by_label ?ts = ([0], [1, 2])"
    by (simp add: index_by_label_def unit_vector_def upt_rec)
  have y: "GetY (?ts ! 1) = 0" by (simp add: unit_vector_def)
  from negatives_bucket_holds_nonpositive_labels [OF idx]
  have "1 \<in> set [1, 2::nat] \<longleftrightarrow> 1 < length ?ts \<and> GetY (?ts ! 1) \<le> 0" by blast
  with idx y show ?thesis by simp
qed

end
